theory Spec2Isabelle
  imports Main "HOL-Library.Word"
begin

unbundle bit_operations_syntax

chapter \<open>libmqtt: subscribe/unsubscribe codec and the per-connection session engine\<close>

text \<open>
  The development embeds two source files of the client library: the codec of the
  SUBSCRIBE, SUBACK, UNSUBSCRIBE and UNSUBACK packets, and \<open>client_conn.go\<close>, the
  connection's engine (\<open>logic\<close>), its keepalive task, its send handler and \<open>send\<close>.
  Go's \<open>byte\<close> is an 8-bit word, \<open>uint16\<close> a 16-bit word, \<open>int\<close> an integer, a
  \<open>string\<close> a list of 8-bit characters, a pointer that may be \<open>nil\<close> an option.
\<close>

section \<open>Codec\<close>

subsection \<open>Constants and primitive encoders\<close>

type_synonym byte = "8 word"
type_synonym uint16 = "16 word"

datatype error = ErrEncodeBadPacket | ErrUnsupportedVersion | ErrEncodeLargePacket

text \<open>
  Modelled from the spec: the protocol versions and the control types are declared outside
  the two source files. The protocol level byte is 4 for V3.1.1 and 5 for V5; the control
  type is the high nibble of the first byte (SUBSCRIBE 8, SUBACK 9, UNSUBSCRIBE 10,
  UNSUBACK 11); the property keys are the tag bytes of MQTT 5 (subscription identifier
  11, reason string 31, user property 38).
\<close>

definition V311 :: byte where "V311 = 4"
definition V5 :: byte where "V5 = 5"

definition CtrlSubscribe :: byte where "CtrlSubscribe = 8"
definition CtrlSubAck :: byte where "CtrlSubAck = 9"
definition CtrlUnSub :: byte where "CtrlUnSub = 10"
definition CtrlUnSubAck :: byte where "CtrlUnSubAck = 11"

definition propKeySubID :: byte where "propKeySubID = 11"
definition propKeyReasonString :: byte where "propKeyReasonString = 31"
definition propKeyUserProps :: byte where "propKeyUserProps = 38"

text \<open>
  Modelled from the spec: \<open>encodeStringWithLen\<close> is not in the two source files. A string
  is written as a 2-byte big-endian length followed by its bytes; the two length bytes are
  \<open>byte(l >> 8)\<close> and \<open>byte(l)\<close>, which wrap for a string of more than 65535 bytes.
\<close>

definition encodeStringWithLen :: "string \<Rightarrow> byte list" where
  "encodeStringWithLen str =
     (let l = length str in [of_nat (l div 256), of_nat l] @ map of_char str)"

text \<open>
  Modelled from the spec: \<open>varIntBytes\<close> is not in the two source files. A non-negative
  integer up to 268435455 is written in 1 to 4 bytes, seven bits a byte, least significant
  group first, the high bit of a byte saying that another byte follows. Outside that range
  the function returns an error and no bytes.
\<close>

fun varIntGroups :: "nat \<Rightarrow> byte list" where
  "varIntGroups n =
     (if n < 128 then [of_nat n]
      else of_nat (n mod 128 + 128) # varIntGroups (n div 128))"

declare varIntGroups.simps [simp del]

definition varIntBytes :: "int \<Rightarrow> error + byte list" where
  "varIntBytes n =
     (if n < 0 \<or> 268435455 < n then Inl ErrEncodeLargePacket
      else Inr (varIntGroups (nat n)))"

text \<open>
  Modelled from the spec: the methods \<open>write\<close> and \<open>writeV5\<close> of \<open>BasePacket\<close> are not in
  the two source files. A packet is the first byte, the remaining length as a variable
  byte integer, the variable header and the payload; in V5 the property table, preceded by
  its own length as a variable byte integer, stands between the variable header and the
  payload. The writer is the list of the bytes written so far; a packet too long for the
  remaining length field is refused and nothing is written.
\<close>

definition BasePacket_write :: "byte list \<Rightarrow> byte \<Rightarrow> byte list \<Rightarrow> byte list \<Rightarrow> error option \<times> byte list" where
  "BasePacket_write w first varHeader payload =
     (case varIntBytes (int (length varHeader + length payload)) of
        Inl e \<Rightarrow> (Some e, w)
      | Inr remain \<Rightarrow> (None, w @ [first] @ remain @ varHeader @ payload))"

definition BasePacket_writeV5 ::
  "byte list \<Rightarrow> byte \<Rightarrow> byte list \<Rightarrow> byte list \<Rightarrow> byte list \<Rightarrow> error option \<times> byte list" where
  "BasePacket_writeV5 w first varHeader props payload =
     (case varIntBytes (int (length props)) of
        Inl e \<Rightarrow> (Some e, w)
      | Inr propLen \<Rightarrow>
          (case varIntBytes
                  (int (length varHeader + length propLen + length props + length payload)) of
             Inl e \<Rightarrow> (Some e, w)
           | Inr remain \<Rightarrow>
               (None, w @ [first] @ remain @ varHeader @ propLen @ props @ payload)))"

subsection \<open>User properties and the property set\<close>

text \<open>
  Modelled from the spec: the type \<open>UserProps\<close>, its method \<open>encodeTo\<close> and the type
  \<open>propertySet\<close> are not in the two source files. User properties are an ordered
  sequence of pairs of strings, and \<open>nil\<close> is a value of the type (the source tests
  \<open>UserProps != nil\<close>). Each pair is written as the tag byte 38 and the two strings.
  \<open>encodeTo\<close> appends these bytes to the slice it is given; the value below is the slice
  as the method holds it when it returns.
\<close>

type_synonym UserProps = "(string \<times> string) list"

fun encodeTo :: "UserProps \<Rightarrow> byte list \<Rightarrow> byte list" where
  "encodeTo [] result = result"
| "encodeTo ((k, v) # u) result =
     encodeTo u (result @ [propKeyUserProps] @ encodeStringWithLen k @ encodeStringWithLen v)"

text \<open>
  Modelled from the spec: a property set keeps the properties in the order they were set;
  its bytes are the concatenation of every key byte and value. A string is set under its
  key; user properties are set as one entry (tag, pair) for each pair.
\<close>

type_synonym propertySet = "(byte \<times> byte list) list"

definition set_string :: "propertySet \<Rightarrow> byte \<Rightarrow> string \<Rightarrow> propertySet" where
  "set_string ps k v = ps @ [(k, encodeStringWithLen v)]"

definition set_UserProps :: "propertySet \<Rightarrow> byte \<Rightarrow> UserProps \<Rightarrow> propertySet" where
  "set_UserProps ps k u =
     ps @ map (\<lambda>(a, b). (k, encodeStringWithLen a @ encodeStringWithLen b)) u"

definition propertySet_bytes :: "propertySet \<Rightarrow> byte list" where
  "propertySet_bytes ps = concat (map (\<lambda>(k, v). k # v) ps)"

subsection \<open>SUBSCRIBE\<close>

record Topic =
  Name :: string
  Qos :: byte

record SubscribeProps =
  SubID :: int
  UserProps :: "UserProps option"

text \<open>
  \<open>Topics\<close> is a slice of pointers to \<open>Topic\<close>. The record takes the type of its
  elements as a parameter. The encoder only reads the topics, each through its pointer,
  and works on the packet with the topics read, a \<open>Topic SubscribePacket\<close>. The engine
  writes through the pointers and keeps them as they are: there the packet is a
  \<open>TopicPtr SubscribePacket\<close> and the \<open>Topic\<close> objects are in \<open>topicHeap\<close> of the
  connection.
\<close>

type_synonym TopicPtr = nat

record 't SubscribePacket =
  sub_ProtoVersion :: byte
  sub_PacketID :: uint16
  sub_Topics :: "'t list"
  sub_Props :: "SubscribeProps option"

text \<open>
  \<open>SubscribeProps.props\<close>. The slice \<open>result\<close> is passed to \<open>encodeTo\<close> by value and
  the call is a statement: what \<open>encodeTo\<close> appends lands in the callee's copy of the
  slice header, and \<open>result\<close> of the caller keeps its length and its bytes. The error of
  \<open>varIntBytes\<close> is dropped, its bytes are appended as they are.
\<close>

definition SubscribeProps_props :: "SubscribeProps option \<Rightarrow> byte list" where
  "SubscribeProps_props s =
     (case s of
        None \<Rightarrow> []
      | Some s \<Rightarrow>
          (let result = [];
               result = (if SubID s \<noteq> 0
                         then (let subIDBytes = (case varIntBytes (SubID s) of
                                                   Inl e \<Rightarrow> [] | Inr bs \<Rightarrow> bs)
                               in result @ [propKeySubID] @ subIDBytes)
                         else result)
           in (case UserProps s of
                 None \<Rightarrow> result
               | Some u \<Rightarrow>
                   (let result = result @ [propKeyUserProps];
                        callee = encodeTo u result
                    in result))))"

definition SubscribePacket_payload :: "Topic SubscribePacket \<Rightarrow> byte list" where
  "SubscribePacket_payload s =
     concat (map (\<lambda>t. encodeStringWithLen (Name t) @ [Qos t]) (sub_Topics s))"

definition SubscribePacket_WriteTo ::
  "Topic SubscribePacket option \<Rightarrow> byte list \<Rightarrow> error option \<times> byte list" where
  "SubscribePacket_WriteTo s w =
     (case s of
        None \<Rightarrow> (Some ErrEncodeBadPacket, w)
      | Some s \<Rightarrow>
          (let first = push_bit 4 CtrlSubscribe OR 2;
               varHeader = [ucast (drop_bit 8 (sub_PacketID s)), ucast (sub_PacketID s)]
           in if sub_ProtoVersion s = V311
              then BasePacket_write w first varHeader (SubscribePacket_payload s)
              else if sub_ProtoVersion s = V5
              then BasePacket_writeV5 w first varHeader (SubscribeProps_props (sub_Props s))
                     (SubscribePacket_payload s)
              else (Some ErrUnsupportedVersion, w)))"

text \<open>\<open>Bytes\<close> returns \<open>nil\<close> on a nil receiver and the content of a fresh buffer otherwise.\<close>

definition SubscribePacket_Bytes :: "Topic SubscribePacket option \<Rightarrow> byte list option" where
  "SubscribePacket_Bytes s =
     (case s of
        None \<Rightarrow> None
      | Some p \<Rightarrow> Some (snd (SubscribePacket_WriteTo s [])))"

subsection \<open>SUBACK\<close>

record SubAckProps =
  suback_Reason :: string
  suback_UserProps :: "UserProps option"

record SubAckPacket =
  suback_ProtoVersion :: byte
  suback_PacketID :: uint16
  Codes :: "byte list"
  suback_Props :: "SubAckProps option"

definition SubAckProps_props :: "SubAckProps option \<Rightarrow> byte list" where
  "SubAckProps_props p =
     (case p of
        None \<Rightarrow> []
      | Some p \<Rightarrow>
          (let propSet = [];
               propSet = (if suback_Reason p \<noteq> ''''
                          then set_string propSet propKeyReasonString (suback_Reason p)
                          else propSet);
               propSet = (case suback_UserProps p of
                            None \<Rightarrow> propSet
                          | Some u \<Rightarrow> set_UserProps propSet propKeyUserProps u)
           in propertySet_bytes propSet))"

definition SubAckPacket_payload :: "SubAckPacket \<Rightarrow> byte list" where
  "SubAckPacket_payload s = Codes s"

definition SubAckPacket_WriteTo ::
  "SubAckPacket option \<Rightarrow> byte list \<Rightarrow> error option \<times> byte list" where
  "SubAckPacket_WriteTo s w =
     (case s of
        None \<Rightarrow> (Some ErrEncodeBadPacket, w)
      | Some s \<Rightarrow>
          (let first = push_bit 4 CtrlSubAck;
               varHeader = [ucast (drop_bit 8 (suback_PacketID s)), ucast (suback_PacketID s)]
           in if suback_ProtoVersion s = V311
              then BasePacket_write w first varHeader (SubAckPacket_payload s)
              else if suback_ProtoVersion s = V5
              then BasePacket_writeV5 w first varHeader (SubAckProps_props (suback_Props s))
                     (SubAckPacket_payload s)
              else (Some ErrUnsupportedVersion, w)))"

definition SubAckPacket_Bytes :: "SubAckPacket option \<Rightarrow> byte list option" where
  "SubAckPacket_Bytes s =
     (case s of
        None \<Rightarrow> None
      | Some p \<Rightarrow> Some (snd (SubAckPacket_WriteTo s [])))"

subsection \<open>UNSUBSCRIBE\<close>

record UnSubProps =
  unsub_UserProps :: "UserProps option"

record UnSubPacket =
  unsub_ProtoVersion :: byte
  unsub_PacketID :: uint16
  TopicNames :: "string list"
  unsub_Props :: "UnSubProps option"

definition UnSubProps_props :: "UnSubProps option \<Rightarrow> byte list" where
  "UnSubProps_props p =
     (case p of
        None \<Rightarrow> []
      | Some p \<Rightarrow>
          (let propSet = [];
               propSet = (case unsub_UserProps p of
                            None \<Rightarrow> propSet
                          | Some u \<Rightarrow> set_UserProps propSet propKeyUserProps u)
           in propertySet_bytes propSet))"

definition UnSubPacket_payload :: "UnSubPacket \<Rightarrow> byte list" where
  "UnSubPacket_payload s = concat (map encodeStringWithLen (TopicNames s))"

definition UnSubPacket_WriteTo ::
  "UnSubPacket option \<Rightarrow> byte list \<Rightarrow> error option \<times> byte list" where
  "UnSubPacket_WriteTo s w =
     (case s of
        None \<Rightarrow> (Some ErrEncodeBadPacket, w)
      | Some s \<Rightarrow>
          (let first = push_bit 4 CtrlUnSub OR 2;
               varHeader = [ucast (drop_bit 8 (unsub_PacketID s)), ucast (unsub_PacketID s)]
           in if unsub_ProtoVersion s = V311
              then BasePacket_write w first varHeader (UnSubPacket_payload s)
              else if unsub_ProtoVersion s = V5
              then BasePacket_writeV5 w first varHeader (UnSubProps_props (unsub_Props s))
                     (UnSubPacket_payload s)
              else (Some ErrUnsupportedVersion, w)))"

definition UnSubPacket_Bytes :: "UnSubPacket option \<Rightarrow> byte list option" where
  "UnSubPacket_Bytes s =
     (case s of
        None \<Rightarrow> None
      | Some p \<Rightarrow> Some (snd (UnSubPacket_WriteTo s [])))"

subsection \<open>UNSUBACK\<close>

record UnSubAckProps =
  unsuback_Reason :: string
  unsuback_UserProps :: "UserProps option"

record UnSubAckPacket =
  unsuback_ProtoVersion :: byte
  unsuback_PacketID :: uint16
  unsuback_Props :: "UnSubAckProps option"

definition UnSubAckProps_props :: "UnSubAckProps option \<Rightarrow> byte list" where
  "UnSubAckProps_props p =
     (case p of
        None \<Rightarrow> []
      | Some p \<Rightarrow>
          (let propSet = [];
               propSet = (if unsuback_Reason p \<noteq> ''''
                          then set_string propSet propKeyReasonString (unsuback_Reason p)
                          else propSet);
               propSet = (case unsuback_UserProps p of
                            None \<Rightarrow> propSet
                          | Some u \<Rightarrow> set_UserProps propSet propKeyUserProps u)
           in propertySet_bytes propSet))"

definition UnSubAckPacket_WriteTo ::
  "UnSubAckPacket option \<Rightarrow> byte list \<Rightarrow> error option \<times> byte list" where
  "UnSubAckPacket_WriteTo s w =
     (case s of
        None \<Rightarrow> (Some ErrEncodeBadPacket, w)
      | Some s \<Rightarrow>
          (let first = push_bit 4 CtrlUnSubAck;
               varHeader = [ucast (drop_bit 8 (unsuback_PacketID s)),
                            ucast (unsuback_PacketID s)]
           in if unsuback_ProtoVersion s = V311
              then BasePacket_write w first varHeader []
              else if unsuback_ProtoVersion s = V5
              then BasePacket_writeV5 w first varHeader (UnSubAckProps_props (unsuback_Props s)) []
              else (Some ErrUnsupportedVersion, w)))"

definition UnSubAckPacket_Bytes :: "UnSubAckPacket option \<Rightarrow> byte list option" where
  "UnSubAckPacket_Bytes s =
     (case s of
        None \<Rightarrow> None
      | Some p \<Rightarrow> Some (snd (UnSubAckPacket_WriteTo s [])))"

section \<open>Packet identifiers in flight\<close>

text \<open>
  Modelled from the spec: \<open>PublishPacket\<close> and the acknowledgement packets are declared
  outside the two source files. A PUBLISH carries the DUP flag, the QoS, the RETAIN flag,
  the topic name, the packet identifier and the payload; PUBACK, PUBREC, PUBREL and PUBCOMP
  are built by the engine from a packet identifier alone.
\<close>

definition Qos0 :: byte where "Qos0 = 0"
definition Qos1 :: byte where "Qos1 = 1"
definition Qos2 :: byte where "Qos2 = 2"

record PublishPacket =
  IsDup :: bool
  pub_Qos :: byte
  IsRetain :: bool
  TopicName :: string
  pub_PacketID :: uint16
  Payload :: "byte list"

datatype Packet =
    Subscribe "TopicPtr SubscribePacket"
  | SubAck SubAckPacket
  | UnSub UnSubPacket
  | UnSubAck UnSubAckPacket
  | Publish PublishPacket
  | PubAck uint16
  | PubRecv uint16
  | PubRel uint16
  | PubComp uint16
  | PingReq
  | PingResp
  | ConnAck
  | DisConn
  | Auth

datatype alloc_error = NoFreePacketID

text \<open>
  Modelled from the spec: the packet-identifier allocator (\<open>idGen\<close>) is not in the two
  source files. It binds the original request to a 16-bit non-zero identifier, fails with
  \<open>NoFreePacketID\<close> when none is free, and removes the binding on \<open>free\<close>. The source
  uses its \<open>getExtra\<close> and \<open>free\<close>. The spec leaves the choice among the free identifiers
  open; the model takes the lowest.
\<close>

type_synonym 'a idGenerator = "uint16 \<rightharpoonup> 'a"

function firstFree :: "'a idGenerator \<Rightarrow> nat \<Rightarrow> uint16 option" where
  "firstFree m i =
     (if 65535 < i then None
      else if m (of_nat i) = None then Some (of_nat i)
      else firstFree m (i + 1))"
  by pat_completeness auto
termination
  by (relation "measure (\<lambda>(m, i). 65536 - i)") auto

declare firstFree.simps [simp del]

definition alloc :: "'a idGenerator \<Rightarrow> 'a \<Rightarrow> alloc_error + (uint16 \<times> 'a idGenerator)" where
  "alloc m extra =
     (case firstFree m 1 of
        None \<Rightarrow> Inl NoFreePacketID
      | Some pid \<Rightarrow> Inr (pid, m(pid \<mapsto> extra)))"

definition idGen_getExtra :: "'a idGenerator \<Rightarrow> uint16 \<Rightarrow> 'a option" where
  "idGen_getExtra m pid = m pid"

definition idGen_free :: "'a idGenerator \<Rightarrow> uint16 \<Rightarrow> 'a idGenerator" where
  "idGen_free m pid = m(pid := None)"

section \<open>The connection\<close>

text \<open>
  The state a connection's tasks share. \<open>idGen\<close> is \<open>c.parent.idGen\<close>, the table of the
  requests in flight, and \<open>closing\<close> is what \<open>c.parent.isClosing()\<close> returns. The
  persistence backend and the helpers that put a message on \<open>msgCh\<close> are outside the two
  source files, so the state records the calls the source makes on them, in order:
  \<open>persistLog\<close> holds the \<open>Store\<close> and \<open>Delete\<close> calls on \<open>c.parent.persist\<close>,
  \<open>msgCh\<close> the calls of \<open>notifySubMsg\<close>, \<open>notifyUnSubMsg\<close>, \<open>notifyPubMsg\<close> and
  \<open>notifyPersistMsg\<close> (the last with the operation whose result it reports).
  \<open>recvCh\<close> holds the packets handed to the receiver, \<open>logicSendC\<close> the engine's send
  queue, \<open>wire\<close> the packets written to \<open>connRW\<close>; \<open>connClosed\<close> says that
  \<open>c.conn.Close()\<close> was called, \<open>exited\<close> that \<open>c.exit()\<close> was. Channels are queues
  without a bound: a send never blocks. \<open>topicHeap\<close> holds the \<open>Topic\<close> objects that
  the requests in flight point to; \<open>notifySubMsg\<close> is called with the pointers, and who
  receives them reads the objects. No pointer is \<open>nil\<close>: \<open>payload\<close> has read through
  each of them when the SUBSCRIBE was written.
\<close>

datatype persist_key = sendKey uint16 | recvKey uint16

datatype persist_op = Store persist_key Packet | Delete persist_key

datatype message =
    SubMsg "TopicPtr list" "error option"
  | UnSubMsg "string list" "error option"
  | PubMsg string "error option"
  | PersistMsg Packet persist_op

record clientConn =
  idGen :: "Packet idGenerator"
  closing :: bool
  recvCh :: "PublishPacket list"
  msgCh :: "message list"
  logicSendC :: "Packet list"
  persistLog :: "persist_op list"
  topicHeap :: "TopicPtr \<Rightarrow> Topic"
  wire :: "Packet list"
  connClosed :: bool
  exited :: bool

definition notifySubMsg :: "TopicPtr list \<Rightarrow> error option \<Rightarrow> clientConn \<Rightarrow> clientConn" where
  "notifySubMsg topics err c = c\<lparr>msgCh := msgCh c @ [SubMsg topics err]\<rparr>"

definition notifyUnSubMsg :: "string list \<Rightarrow> error option \<Rightarrow> clientConn \<Rightarrow> clientConn" where
  "notifyUnSubMsg topics err c = c\<lparr>msgCh := msgCh c @ [UnSubMsg topics err]\<rparr>"

definition notifyPubMsg :: "string \<Rightarrow> error option \<Rightarrow> clientConn \<Rightarrow> clientConn" where
  "notifyPubMsg topic err c = c\<lparr>msgCh := msgCh c @ [PubMsg topic err]\<rparr>"

text \<open>
  In \<open>notifyPersistMsg(msgCh, pkt, persist.Store(...))\<close> and its \<open>Delete\<close> form the
  operation on the backend runs first, as the argument is evaluated, then its result is
  reported.
\<close>

definition persist_call :: "persist_op \<Rightarrow> clientConn \<Rightarrow> clientConn" where
  "persist_call op c = c\<lparr>persistLog := persistLog c @ [op]\<rparr>"

definition notifyPersistMsg :: "Packet \<Rightarrow> persist_op \<Rightarrow> clientConn \<Rightarrow> clientConn" where
  "notifyPersistMsg pkt op c = (persist_call op c)\<lparr>msgCh := msgCh c @ [PersistMsg pkt op]\<rparr>"

text \<open>\<open>clientConn.send\<close>: nothing happens once the parent client is closing.\<close>

definition send :: "Packet \<Rightarrow> clientConn \<Rightarrow> clientConn" where
  "send pkt c = (if closing c then c else c\<lparr>logicSendC := logicSendC c @ [pkt]\<rparr>)"

definition free :: "uint16 \<Rightarrow> clientConn \<Rightarrow> clientConn" where
  "free pid c = c\<lparr>idGen := idGen_free (idGen c) pid\<rparr>"

subsection \<open>The engine: \<open>clientConn.logic\<close>\<close>

text \<open>
  The loop over the topics of the original SUBSCRIBE: the topic at index \<open>i\<close> is
  written code \<open>i\<close>, through its pointer, while \<open>i\<close> is below the number of codes.
  A pointer that occurs twice is written twice, and the later write is the one that stays.
\<close>

fun grantLoop :: "nat \<Rightarrow> byte list \<Rightarrow> TopicPtr list \<Rightarrow> (TopicPtr \<Rightarrow> Topic) \<Rightarrow> TopicPtr \<Rightarrow> Topic" where
  "grantLoop i codes [] heap = heap"
| "grantLoop i codes (v # topics) heap =
     grantLoop (i + 1) codes topics
       (if i < length codes then heap(v := (heap v)\<lparr>Qos := codes ! i\<rparr>) else heap)"

definition grantQos :: "TopicPtr list \<Rightarrow> byte list \<Rightarrow> (TopicPtr \<Rightarrow> Topic) \<Rightarrow> TopicPtr \<Rightarrow> Topic" where
  "grantQos topics codes heap = grantLoop 0 codes topics heap"

text \<open>The body of the loop for one packet taken from \<open>netRecvC\<close>.\<close>

fun logic_recv :: "Packet \<Rightarrow> clientConn \<Rightarrow> clientConn" where
  "logic_recv (SubAck p) c =
     (case idGen_getExtra (idGen c) (suback_PacketID p) of
        Some (Subscribe originSub) \<Rightarrow>
          (let c = c\<lparr>topicHeap := grantQos (sub_Topics originSub) (Codes p) (topicHeap c)\<rparr>;
               c = notifySubMsg (sub_Topics originSub) None c;
               c = free (suback_PacketID p) c
           in notifyPersistMsg (SubAck p) (Delete (sendKey (suback_PacketID p))) c)
      | _ \<Rightarrow> c)"
| "logic_recv (UnSubAck p) c =
     (case idGen_getExtra (idGen c) (unsuback_PacketID p) of
        Some (UnSub originUnSub) \<Rightarrow>
          (let c = notifyUnSubMsg (TopicNames originUnSub) None c;
               c = free (unsuback_PacketID p) c
           in notifyPersistMsg (UnSubAck p) (Delete (sendKey (unsuback_PacketID p))) c)
      | _ \<Rightarrow> c)"
| "logic_recv (Publish p) c =
     (let c = c\<lparr>recvCh := recvCh c @ [p]\<rparr>
      in if pub_Qos p = Qos1
         then (let c = send (PubAck (pub_PacketID p)) c
               in notifyPersistMsg (Publish p) (Store (recvKey (pub_PacketID p)) (Publish p)) c)
         else if pub_Qos p = Qos2
         then (let c = send (PubRecv (pub_PacketID p)) c
               in notifyPersistMsg (Publish p) (Store (recvKey (pub_PacketID p)) (Publish p)) c)
         else c)"
| "logic_recv (PubAck pid) c =
     (case idGen_getExtra (idGen c) pid of
        Some (Publish originPub) \<Rightarrow>
          if pub_Qos originPub = Qos1
          then (let c = notifyPubMsg (TopicName originPub) None c;
                    c = free pid c
                in notifyPersistMsg (PubAck pid) (Delete (sendKey pid)) c)
          else c
      | _ \<Rightarrow> c)"
| "logic_recv (PubRecv pid) c =
     (case idGen_getExtra (idGen c) pid of
        Some (Publish originPub) \<Rightarrow>
          if pub_Qos originPub = Qos2 then send (PubRel pid) c else c
      | _ \<Rightarrow> c)"
| "logic_recv (PubRel pid) c =
     (case idGen_getExtra (idGen c) pid of
        Some (Publish originPub) \<Rightarrow>
          if pub_Qos originPub = Qos2
          then (let c = send (PubComp pid) c
                in notifyPersistMsg (PubRel pid) (Store (recvKey pid) (PubRel pid)) c)
          else c
      | _ \<Rightarrow> c)"
| "logic_recv (PubComp pid) c =
     (case idGen_getExtra (idGen c) pid of
        Some (Publish originPub) \<Rightarrow>
          if pub_Qos originPub = Qos2
          then (let c = send (PubRel pid) c;
                    c = notifyPubMsg (TopicName originPub) None c;
                    c = free pid c
                in notifyPersistMsg (PubComp pid) (Delete (sendKey pid)) c)
          else c
      | _ \<Rightarrow> c)"
| "logic_recv pkt c = c"

text \<open>
  The loop: each event is what one \<open>select\<close> receives, the context's cancellation, a
  packet from \<open>netRecvC\<close>, or the closing of that channel. On return the deferred call
  closes the connection. With no event left the task waits in \<open>select\<close>.
\<close>

datatype recv_event = Done | Recv Packet | Closed

fun logic :: "recv_event list \<Rightarrow> clientConn \<Rightarrow> clientConn" where
  "logic [] c = c"
| "logic (Done # evs) c = c\<lparr>connClosed := True\<rparr>"
| "logic (Closed # evs) c = c\<lparr>connClosed := True\<rparr>"
| "logic (Recv pkt # evs) c = logic evs (logic_recv pkt c)"

subsection \<open>The send handler: \<open>clientConn.handleSend\<close>\<close>

text \<open>
  Each event is what one \<open>select\<close> of the send handler receives: the cancellation, the
  flush timer (with the result of \<open>Flush\<close>), a packet from the client's \<open>sendCh\<close> or the
  closing of it, the head of \<open>logicSendC\<close> or the closing of it. The result of
  \<open>pkt.WriteTo(c.connRW)\<close>, after \<open>SetVersion\<close>, is the parameter \<open>wr\<close>, since the
  encoders of most packets are outside the two source files; a packet written is added to
  \<open>wire\<close>. The flush timer is not part of the state. A receive from \<open>logicSendC\<close>
  while it is empty does not happen, and the event is passed over.
\<close>

datatype send_event =
    SendDone
  | FlushFired "error option"
  | UserSend Packet
  | UserClosed
  | LogicSend
  | LogicClosed

definition disconnect :: "clientConn \<Rightarrow> clientConn" where
  "disconnect c = c\<lparr>connClosed := True, exited := True\<rparr>"

fun handleSend :: "(Packet \<Rightarrow> error option) \<Rightarrow> send_event list \<Rightarrow> clientConn \<Rightarrow> clientConn" where
  "handleSend wr [] c = c"
| "handleSend wr (SendDone # evs) c = c"
| "handleSend wr (FlushFired err # evs) c =
     (case err of Some e \<Rightarrow> c | None \<Rightarrow> handleSend wr evs c)"
| "handleSend wr (UserClosed # evs) c = c"
| "handleSend wr (UserSend pkt # evs) c =
     (case wr pkt of
        Some e \<Rightarrow> c
      | None \<Rightarrow>
          (case pkt of
             Publish p \<Rightarrow>
               handleSend wr evs
                 (if pub_Qos p = 0
                  then notifyPubMsg (TopicName p) None (c\<lparr>wire := wire c @ [pkt]\<rparr>)
                  else c\<lparr>wire := wire c @ [pkt]\<rparr>)
           | DisConn \<Rightarrow> disconnect (c\<lparr>wire := wire c @ [pkt]\<rparr>)
           | _ \<Rightarrow> handleSend wr evs (c\<lparr>wire := wire c @ [pkt]\<rparr>)))"
| "handleSend wr (LogicClosed # evs) c = c"
| "handleSend wr (LogicSend # evs) c =
     (case logicSendC c of
        [] \<Rightarrow> handleSend wr evs c
      | pkt # queue \<Rightarrow>
          (case wr pkt of
             Some e \<Rightarrow> c\<lparr>logicSendC := queue\<rparr>
           | None \<Rightarrow>
               (case pkt of
                  PubRel pid \<Rightarrow>
                    handleSend wr evs
                      (notifyPersistMsg pkt (Store (sendKey pid) pkt)
                         (c\<lparr>logicSendC := queue, wire := wire c @ [pkt]\<rparr>))
                | PubAck pid \<Rightarrow>
                    handleSend wr evs
                      (notifyPersistMsg pkt (Delete (sendKey pid))
                         (c\<lparr>logicSendC := queue, wire := wire c @ [pkt]\<rparr>))
                | PubComp pid \<Rightarrow>
                    handleSend wr evs
                      (notifyPersistMsg pkt (Delete (sendKey pid))
                         (c\<lparr>logicSendC := queue, wire := wire c @ [pkt]\<rparr>))
                | DisConn \<Rightarrow> disconnect (c\<lparr>logicSendC := queue, wire := wire c @ [pkt]\<rparr>)
                | _ \<Rightarrow> handleSend wr evs (c\<lparr>logicSendC := queue, wire := wire c @ [pkt]\<rparr>))))"

subsection \<open>The keepalive task: \<open>clientConn.keepalive\<close>\<close>

text \<open>
  \<open>time.Duration\<close> is a signed 64-bit count of nanoseconds. The ticker is created with
  the period \<open>keepalive * 3 / 4\<close>: the product wraps around in 64 bits and the division
  truncates towards zero.
\<close>

definition tickPeriod :: "64 word \<Rightarrow> int" where
  "tickPeriod keepalive = (let n = sint (keepalive * 3) in sgn n * (\<bar>n\<bar> div 4))"

text \<open>
  The timeout is \<open>time.Duration(float64(keepalive) * keepaliveFactor)\<close>. A \<open>float64\<close> is
  an IEEE 754 double: \<open>Finite neg m e\<close> is the number \<open>m * 2 ^ e\<close>, negated when \<open>neg\<close>
  holds, with \<open>m\<close> below \<open>2 ^ 53\<close> and \<open>e\<close> from -1074 to 971; the other values are the
  two infinities and NaN. The factor 1.0 is \<open>Finite False 1 0\<close>, and the double nearest
  to 1.2 is \<open>Finite False 5404319552844595 (- 52)\<close>.

  \<open>roundFloat64\<close> rounds the exact number \<open>n * 2 ^ e\<close> to the nearest double, ties to
  even: the low bits that do not fit into 53 bits, or that lie below \<open>2 ^ - 1074\<close>, are
  cut off and the rest is rounded up when they are more than half, or exactly half next to
  an odd rest; a result of \<open>2 ^ 1024\<close> or more is an infinity. The conversion of an
  integer to \<open>float64\<close> and the product of two doubles round their exact results this
  way. The conversion of a \<open>float64\<close> to an integer truncates towards zero; when the
  result does not fit into 64 bits, or the value is not finite, Go leaves the result to
  the implementation, and the model gives \<open>None\<close>.
\<close>

datatype float64 = Finite bool nat int | Infinity bool | NaN

fun bitLength :: "nat \<Rightarrow> nat" where
  "bitLength n = (if n = 0 then 0 else Suc (bitLength (n div 2)))"

declare bitLength.simps [simp del]

definition roundFloat64 :: "bool \<Rightarrow> nat \<Rightarrow> int \<Rightarrow> float64" where
  "roundFloat64 neg n e =
     (let shift = max (int (bitLength n) - 53) (- 1074 - e);
          d = 2 ^ nat shift;
          q = (if shift \<le> 0 then n
               else if d < 2 * (n mod d) \<or> (d = 2 * (n mod d) \<and> odd (n div d))
               then n div d + 1
               else n div d);
          e' = (if shift \<le> 0 then e else e + shift)
      in if 1024 < int (bitLength q) + e' then Infinity neg else Finite neg q e')"

definition float64_of_int64 :: "64 word \<Rightarrow> float64" where
  "float64_of_int64 k = roundFloat64 (sint k < 0) (nat \<bar>sint k\<bar>) 0"

fun float64_mul :: "float64 \<Rightarrow> float64 \<Rightarrow> float64" where
  "float64_mul (Finite s1 m1 e1) (Finite s2 m2 e2) =
     roundFloat64 (s1 \<noteq> s2) (m1 * m2) (e1 + e2)"
| "float64_mul (Finite s1 m1 e1) (Infinity s2) =
     (if m1 = 0 then NaN else Infinity (s1 \<noteq> s2))"
| "float64_mul (Infinity s1) (Finite s2 m2 e2) =
     (if m2 = 0 then NaN else Infinity (s1 \<noteq> s2))"
| "float64_mul (Infinity s1) (Infinity s2) = Infinity (s1 \<noteq> s2)"
| "float64_mul NaN y = NaN"
| "float64_mul x NaN = NaN"

fun toDuration :: "float64 \<Rightarrow> int option" where
  "toDuration (Finite neg m e) =
     (let magnitude = (if 0 \<le> e then int m * 2 ^ nat e else int m div 2 ^ nat (- e));
          d = (if neg then - magnitude else magnitude)
      in if - (2 ^ 63) \<le> d \<and> d < 2 ^ 63 then Some d else None)"
| "toDuration x = None"

definition timeoutOf :: "64 word \<Rightarrow> float64 \<Rightarrow> int option" where
  "timeoutOf keepalive factor = toDuration (float64_mul (float64_of_int64 keepalive) factor)"

text \<open>
  A run of the loop when nobody else cancels the context and \<open>keepaliveC\<close> stays open.
  Time is counted in nanoseconds from the moment the task starts. The run depends on the
  times \<open>resp\<close> at which values arrive on \<open>keepaliveC\<close>, one for each PINGRESP, in
  ascending order. Of Go's timers the model uses this much: a ticker of period \<open>P\<close>
  delivers at every multiple of \<open>P\<close> and keeps at most one tick that was not received; a
  timer delivers once, at its deadline, and keeps the value until it is received; a timer
  created or reset with a duration that is not positive fires at once; \<open>Reset\<close> of a
  timer that has not fired moves the deadline to the duration after the call. A
  \<open>select\<close> takes what is ready first; when a PINGRESP and the timer are ready at the
  same instant Go may take either, and the model takes the timer.

  \<open>nextTick P now lastTick\<close> is the time at which the outer \<open>select\<close>, entered at
  \<open>now\<close>, receives a tick when the last tick was received at \<open>lastTick\<close>: at once when
  a multiple of \<open>P\<close> has passed since, at the next multiple of \<open>P\<close> otherwise.
\<close>

definition nextTick :: "int \<Rightarrow> int \<Rightarrow> int \<Rightarrow> int" where
  "nextTick P now lastTick =
     (if lastTick div P < now div P then now else (now div P + 1) * P)"

text \<open>
  The arguments of the loop are the period \<open>P\<close>, the duration \<open>T\<close>, the time \<open>now\<close> at
  which the outer \<open>select\<close> is entered, the time \<open>lastTick\<close> at which the last tick
  was received, and the \<open>deadline\<close> of the timeout timer. The result lists what the task
  does and when: the call \<open>c.send(PingReqPacket)\<close>, \<open>timeoutTimer.Reset(timeout)\<close>, and
  \<open>c.exit()\<close>.
\<close>

datatype keepalive_action = SendPingReq | TimerReset | Exit

fun keepalive_loop ::
  "int \<Rightarrow> int \<Rightarrow> int \<Rightarrow> int \<Rightarrow> int \<Rightarrow> int list \<Rightarrow> (int \<times> keepalive_action) list" where
  "keepalive_loop P T now lastTick deadline [] =
     (let tick = nextTick P now lastTick
      in [(tick, SendPingReq), (max tick deadline, Exit)])"
| "keepalive_loop P T now lastTick deadline (r # resp) =
     (let tick = nextTick P now lastTick
      in (tick, SendPingReq) #
         (if max tick r < max tick deadline
          then (max tick r, TimerReset) #
               keepalive_loop P T (max tick r) tick (max tick r + max 0 T) resp
          else [(max tick deadline, Exit)]))"

text \<open>
  The task: \<open>time.NewTicker\<close> panics when the period is not positive; then the timeout
  is computed and the timer created, before the loop.
\<close>

datatype keepalive_result =
    NewTickerPanics
  | TimeoutUnspecified
  | Run "(int \<times> keepalive_action) list"

definition keepalive :: "64 word \<Rightarrow> float64 \<Rightarrow> int list \<Rightarrow> keepalive_result" where
  "keepalive k factor resp =
     (if tickPeriod k \<le> 0 then NewTickerPanics
      else (case timeoutOf k factor of
              None \<Rightarrow> TimeoutUnspecified
            | Some T \<Rightarrow> Run (keepalive_loop (tickPeriod k) T 0 0 (max 0 T) resp)))"

text \<open>The times of the PINGREQ and of the timer resets of a run.\<close>

definition pingTimes :: "(int \<times> keepalive_action) list \<Rightarrow> int list" where
  "pingTimes run = map fst (filter (\<lambda>x. snd x = SendPingReq) run)"

definition resetTimes :: "(int \<times> keepalive_action) list \<Rightarrow> int list" where
  "resetTimes run = map fst (filter (\<lambda>x. snd x = TimerReset) run)"

section \<open>Auxiliary definitions for the statements\<close>

text \<open>
  A connection that has done nothing yet, with a given table of identifiers in flight; every
  \<open>Topic\<close> object has the empty name and QoS 0.
\<close>

definition initConn :: "Packet idGenerator \<Rightarrow> clientConn" where
  "initConn m =
     \<lparr>idGen = m, closing = False, recvCh = [], msgCh = [], logicSendC = [],
      persistLog = [], topicHeap = (\<lambda>v. \<lparr>Name = [], Qos = 0\<rparr>), wire = [],
      connClosed = False, exited = False\<rparr>"

text \<open>The packet identifier of an acknowledgement (SUBACK, UNSUBACK, PUBACK, PUBREC, PUBCOMP).\<close>

definition ackPacketID :: "Packet \<Rightarrow> uint16 option" where
  "ackPacketID pkt =
     (case pkt of
        SubAck p \<Rightarrow> Some (suback_PacketID p)
      | UnSubAck p \<Rightarrow> Some (unsuback_PacketID p)
      | PubAck pid \<Rightarrow> Some pid
      | PubRecv pid \<Rightarrow> Some pid
      | PubComp pid \<Rightarrow> Some pid
      | _ \<Rightarrow> None)"

section \<open>Properties of the codec\<close>

lemma varIntGroups_small: "n < 128 \<Longrightarrow> varIntGroups n = [of_nat n]"
  by (simp add: varIntGroups.simps)

text \<open>
  The bytes \<open>SubscribeProps.props\<close> returns do not depend on the user properties, only on
  whether they are \<open>nil\<close>.
\<close>

lemma SubscribeProps_props_any_user_props:
  "SubscribeProps_props (Some \<lparr>SubID = i, UserProps = Some u\<rparr>) =
   SubscribeProps_props (Some \<lparr>SubID = i, UserProps = Some u'\<rparr>)"
  by (simp add: SubscribeProps_props_def Let_def)

text \<open>
  C1. The claim: decoding the encoding of a packet gives the packet back, in particular for a
  V5 SUBSCRIBE whose properties hold a non-empty table of user properties. The encoder
  breaks it: the V5 SUBSCRIBE with packet identifier 1, the topic \<open>a\<close> at QoS 0 and the
  user property \<open>(k, v)\<close> is written as ten bytes whose property table is the lone tag
  byte 38; neither \<open>k\<close> nor \<open>v\<close> is in them, and the same packet with the user
  property \<open>(x, y)\<close> is written as the same ten bytes. No decoder returns both packets.
\<close>

theorem subscribe_v5_user_props_lost:
  "SubscribePacket_Bytes
     (Some \<lparr>sub_ProtoVersion = V5, sub_PacketID = 1,
            sub_Topics = [\<lparr>Name = ''a'', Qos = 0\<rparr>],
            sub_Props = Some \<lparr>SubID = 0, UserProps = Some [(''k'', ''v'')]\<rparr>\<rparr>)
     = Some [130, 8, 0, 1, 1, 38, 0, 1, 97, 0]
   \<and> SubscribePacket_Bytes
     (Some \<lparr>sub_ProtoVersion = V5, sub_PacketID = 1,
            sub_Topics = [\<lparr>Name = ''a'', Qos = 0\<rparr>],
            sub_Props = Some \<lparr>SubID = 0, UserProps = Some [(''x'', ''y'')]\<rparr>\<rparr>)
     = Some [130, 8, 0, 1, 1, 38, 0, 1, 97, 0]"
  by (simp add: SubscribePacket_Bytes_def SubscribePacket_WriteTo_def V5_def V311_def
      CtrlSubscribe_def BasePacket_writeV5_def SubscribeProps_props_def
      SubscribePacket_payload_def encodeStringWithLen_def propKeyUserProps_def
      varIntBytes_def varIntGroups_small Let_def)

text \<open>
  C9. For each of the four packet types of the codec file, \<open>WriteTo\<close> on a nil receiver
  returns \<open>ErrEncodeBadPacket\<close> and leaves the writer as it was, and \<open>Bytes\<close> on a nil
  receiver returns \<open>nil\<close>.
\<close>

theorem nil_receiver_rejected:
  "SubscribePacket_WriteTo None w = (Some ErrEncodeBadPacket, w)
   \<and> SubAckPacket_WriteTo None w = (Some ErrEncodeBadPacket, w)
   \<and> UnSubPacket_WriteTo None w = (Some ErrEncodeBadPacket, w)
   \<and> UnSubAckPacket_WriteTo None w = (Some ErrEncodeBadPacket, w)
   \<and> SubscribePacket_Bytes None = None
   \<and> SubAckPacket_Bytes None = None
   \<and> UnSubPacket_Bytes None = None
   \<and> UnSubAckPacket_Bytes None = None"
  by (simp add: SubscribePacket_WriteTo_def SubAckPacket_WriteTo_def UnSubPacket_WriteTo_def
      UnSubAckPacket_WriteTo_def SubscribePacket_Bytes_def SubAckPacket_Bytes_def
      UnSubPacket_Bytes_def UnSubAckPacket_Bytes_def)

section \<open>Properties of the engine\<close>

lemmas engine_defs =
  send_def free_def persist_call_def notifyPersistMsg_def notifyPubMsg_def notifySubMsg_def notifyUnSubMsg_def
  idGen_getExtra_def idGen_free_def Qos1_def Qos2_def Let_def

lemma logic_recv_closing:
  "closing c \<Longrightarrow>
   closing (logic_recv pkt c) \<and> logicSendC (logic_recv pkt c) = logicSendC c"
  by (cases pkt) (auto simp: engine_defs split: option.splits Packet.splits)

lemma logic_closing:
  "closing c \<Longrightarrow> logicSendC (logic evs c) = logicSendC c"
proof (induction evs arbitrary: c)
  case Nil
  then show ?case by simp
next
  case (Cons ev evs)
  then show ?case by (cases ev) (simp_all add: logic_recv_closing)
qed

text \<open>
  C10. Once the parent client is closing, \<open>send\<close> drops the packet: the connection's state
  after the call is the state before it (nothing is put on \<open>logicSendC\<close>, nothing is
  reported), and no run of the engine adds anything to \<open>logicSendC\<close>.
\<close>

theorem send_dropped_when_closing:
  assumes "closing c"
  shows "send pkt c = c \<and> logicSendC (logic evs c) = logicSendC c"
  using assms by (simp add: send_def logic_closing)

theorem send_dropped_when_closing_witness:
  "closing ((initConn Map.empty)\<lparr>closing := True\<rparr>)
   \<and> send (PubComp 7) ((initConn Map.empty)\<lparr>closing := True\<rparr>)
       = (initConn Map.empty)\<lparr>closing := True\<rparr>
   \<and> logicSendC (logic [Recv (PubRel 7)] ((initConn Map.empty)\<lparr>closing := True\<rparr>)) = []"
  using send_dropped_when_closing
    [of "(initConn Map.empty)\<lparr>closing := True\<rparr>" "PubComp 7" "[Recv (PubRel 7)]"]
  by (simp add: initConn_def)

text \<open>
  C7. An acknowledgement (SUBACK, UNSUBACK, PUBACK, PUBREC, PUBCOMP) whose packet identifier
  has no record in flight is ignored: the state after the packet is the state before it (no
  notification, no persistence operation, no reply), and the loop goes on with the next
  event as if the packet had not come.
\<close>

theorem ack_without_record_ignored:
  assumes "ackPacketID pkt = Some pid" and "idGen_getExtra (idGen c) pid = None"
  shows "logic_recv pkt c = c \<and> logic (Recv pkt # evs) c = logic evs c"
  using assms by (cases pkt) (simp_all add: ackPacketID_def)

theorem ack_without_record_ignored_witness:
  "ackPacketID (PubComp 9) = Some 9
   \<and> idGen_getExtra (idGen (initConn Map.empty)) 9 = None
   \<and> logic_recv (PubComp 9) (initConn Map.empty) = initConn Map.empty
   \<and> logic [Recv (PubComp 9), Done] (initConn Map.empty)
       = (initConn Map.empty)\<lparr>connClosed := True\<rparr>"
  using ack_without_record_ignored [of "PubComp 9" 9 "initConn Map.empty" "[Done]"]
  by (simp add: ackPacketID_def idGen_getExtra_def initConn_def)



text \<open>A pointer that occurs twice among the topics takes the code of its last occurrence.\<close>

lemma grantQos_same_pointer_twice:
  "grantQos [v, v] [1, 2] heap v = (heap v)\<lparr>Qos := 2\<rparr>"
  by (simp add: grantQos_def)



lemma logic_recv_Publish_recvCh:
  "recvCh (logic_recv (Publish p) c) = recvCh c @ [p]"
  by (simp add: engine_defs)

lemma logic_Publish_recvCh:
  "recvCh (logic (map (\<lambda>p. Recv (Publish p)) ps) c) = recvCh c @ ps"
proof (induction ps arbitrary: c)
  case Nil
  then show ?case by simp
next
  case (Cons p ps)
  have "recvCh (logic (map (\<lambda>p. Recv (Publish p)) (p # ps)) c)
          = recvCh (logic (map (\<lambda>p. Recv (Publish p)) ps) (logic_recv (Publish p) c))"
    by simp
  also have "\<dots> = recvCh (logic_recv (Publish p) c) @ ps"
    by (rule Cons.IH)
  also have "\<dots> = recvCh c @ p # ps"
    by (simp only: logic_recv_Publish_recvCh append_assoc append_Cons append_Nil)
  finally show ?case .
qed

text \<open>
  C2, as the claim states it, fails. The claim: for an inbound PUBLISH with QoS 2 the engine
  emits exactly one PUBREC before any PUBCOMP and hands the payload to the receiver at most
  once, also when the PUBLISH comes again with DUP set while \<open>recvKey\<close> of its identifier
  is stored. Here the PUBLISH with identifier 7 comes twice, the second time with DUP set:
  the receiver gets both packets, two PUBREC are queued, and the packet is stored under
  \<open>recvKey 7\<close> twice.
\<close>

theorem inbound_qos2_duplicate_delivered_twice:
  "logic
     [Recv (Publish \<lparr>IsDup = False, pub_Qos = 2, IsRetain = False, TopicName = ''x'',
                     pub_PacketID = 7, Payload = [112]\<rparr>),
      Recv (Publish \<lparr>IsDup = True, pub_Qos = 2, IsRetain = False, TopicName = ''x'',
                     pub_PacketID = 7, Payload = [112]\<rparr>)]
     (initConn Map.empty)
   = (initConn Map.empty)
       \<lparr>recvCh :=
          [\<lparr>IsDup = False, pub_Qos = 2, IsRetain = False, TopicName = ''x'',
            pub_PacketID = 7, Payload = [112]\<rparr>,
           \<lparr>IsDup = True, pub_Qos = 2, IsRetain = False, TopicName = ''x'',
            pub_PacketID = 7, Payload = [112]\<rparr>],
        logicSendC := [PubRecv 7, PubRecv 7],
        persistLog :=
          [Store (recvKey 7)
             (Publish \<lparr>IsDup = False, pub_Qos = 2, IsRetain = False, TopicName = ''x'',
                       pub_PacketID = 7, Payload = [112]\<rparr>),
           Store (recvKey 7)
             (Publish \<lparr>IsDup = True, pub_Qos = 2, IsRetain = False, TopicName = ''x'',
                       pub_PacketID = 7, Payload = [112]\<rparr>)],
        msgCh :=
          [PersistMsg
             (Publish \<lparr>IsDup = False, pub_Qos = 2, IsRetain = False, TopicName = ''x'',
                       pub_PacketID = 7, Payload = [112]\<rparr>)
             (Store (recvKey 7)
                (Publish \<lparr>IsDup = False, pub_Qos = 2, IsRetain = False, TopicName = ''x'',
                          pub_PacketID = 7, Payload = [112]\<rparr>)),
           PersistMsg
             (Publish \<lparr>IsDup = True, pub_Qos = 2, IsRetain = False, TopicName = ''x'',
                       pub_PacketID = 7, Payload = [112]\<rparr>)
             (Store (recvKey 7)
                (Publish \<lparr>IsDup = True, pub_Qos = 2, IsRetain = False, TopicName = ''x'',
                          pub_PacketID = 7, Payload = [112]\<rparr>))]\<rparr>"
  by (simp add: engine_defs initConn_def)

text \<open>
  C2, amended. Every time a PUBLISH with QoS 2 comes in, the first time or again, with DUP
  set or not, whatever is stored, the engine hands the packet to the receiver, queues one
  PUBREC for its identifier unless the client is closing, and stores the packet under
  \<open>recvKey\<close> of its identifier; the step queues no PUBCOMP. So the receiver gets every
  PUBLISH that comes in, in order, duplicates included.
\<close>

theorem inbound_qos2_publish_step:
  assumes "pub_Qos p = Qos2"
  shows "logic_recv (Publish p) c =
           c\<lparr>recvCh := recvCh c @ [p],
              logicSendC := (if closing c then logicSendC c
                             else logicSendC c @ [PubRecv (pub_PacketID p)]),
              persistLog := persistLog c @ [Store (recvKey (pub_PacketID p)) (Publish p)],
              msgCh := msgCh c @
                 [PersistMsg (Publish p) (Store (recvKey (pub_PacketID p)) (Publish p))]\<rparr>
         \<and> recvCh (logic (map (\<lambda>p. Recv (Publish p)) ps) c) = recvCh c @ ps"
  using assms by (simp add: engine_defs logic_Publish_recvCh)

theorem inbound_qos2_publish_step_witness:
  "pub_Qos \<lparr>IsDup = True, pub_Qos = 2, IsRetain = False, TopicName = ''x'',
            pub_PacketID = 7, Payload = [112]\<rparr> = Qos2
   \<and> logicSendC
       (logic_recv
          (Publish \<lparr>IsDup = True, pub_Qos = 2, IsRetain = False, TopicName = ''x'',
                    pub_PacketID = 7, Payload = [112]\<rparr>)
          (initConn Map.empty)) = [PubRecv 7]
   \<and> recvCh
       (logic_recv
          (Publish \<lparr>IsDup = True, pub_Qos = 2, IsRetain = False, TopicName = ''x'',
                    pub_PacketID = 7, Payload = [112]\<rparr>)
          (initConn Map.empty))
     = [\<lparr>IsDup = True, pub_Qos = 2, IsRetain = False, TopicName = ''x'',
         pub_PacketID = 7, Payload = [112]\<rparr>]"
  using inbound_qos2_publish_step
    [of "\<lparr>IsDup = True, pub_Qos = 2, IsRetain = False, TopicName = ''x'',
          pub_PacketID = 7, Payload = [112]\<rparr>" "initConn Map.empty" "[]"]
  by (simp add: Qos2_def initConn_def)

lemma logic_recv_nothing_in_flight:
  assumes "idGen c = Map.empty"
  shows "idGen (logic_recv pkt c) = Map.empty
         \<and> (PubComp pid \<in> set (logicSendC (logic_recv pkt c)) \<longrightarrow>
              PubComp pid \<in> set (logicSendC c))
         \<and> (Delete key \<in> set (persistLog (logic_recv pkt c)) \<longrightarrow>
              Delete key \<in> set (persistLog c))"
  using assms by (cases pkt) (auto simp: engine_defs)

text \<open>
  With no request of the client's own in flight, no packet that comes in makes the engine
  queue a PUBCOMP or delete anything from persistence.
\<close>

lemma logic_nothing_in_flight:
  "idGen c = Map.empty \<Longrightarrow>
   (PubComp pid \<in> set (logicSendC (logic evs c)) \<longrightarrow> PubComp pid \<in> set (logicSendC c))
   \<and> (Delete key \<in> set (persistLog (logic evs c)) \<longrightarrow> Delete key \<in> set (persistLog c))"
proof (induction evs arbitrary: c)
  case Nil
  then show ?case by simp
next
  case (Cons ev evs)
  show ?case
  proof (cases ev)
    case (Recv pkt)
    from logic_recv_nothing_in_flight [OF Cons.prems, of pkt pid key]
      Cons.IH [of "logic_recv pkt c"] Recv
    show ?thesis by auto
  qed simp_all
qed

text \<open>
  C3. The claim: on PUBREL, when the inbound record of the identifier is present, the engine
  emits PUBCOMP and deletes \<open>recvKey\<close> of the identifier, storing nothing new under it.
  The engine breaks it. First run, an ordinary inbound exchange: the PUBLISH with
  identifier 7 and QoS 2 comes in and is stored under \<open>recvKey 7\<close>, then PUBREL 7 comes
  in; the engine looks the identifier up among the client's own requests in flight, finds
  none, and does nothing: only the PUBREC is queued, no PUBCOMP, and nothing is deleted.
  Second run: the same two packets while a PUBLISH with QoS 2 of the client's own happens
  to be in flight under 7, and the send handler then writes the two queued packets; now
  PUBCOMP is sent, the engine stores the PUBREL under \<open>recvKey 7\<close>, and the only deletion,
  by the send handler, is of \<open>sendKey 7\<close>.
\<close>

theorem pubrel_stores_under_recvKey:
  "logicSendC
     (logic
        [Recv (Publish \<lparr>IsDup = False, pub_Qos = 2, IsRetain = False, TopicName = ''x'',
                        pub_PacketID = 7, Payload = [112]\<rparr>),
         Recv (PubRel 7)]
        (initConn Map.empty)) = [PubRecv 7]
   \<and> persistLog
     (logic
        [Recv (Publish \<lparr>IsDup = False, pub_Qos = 2, IsRetain = False, TopicName = ''x'',
                        pub_PacketID = 7, Payload = [112]\<rparr>),
         Recv (PubRel 7)]
        (initConn Map.empty))
     = [Store (recvKey 7)
          (Publish \<lparr>IsDup = False, pub_Qos = 2, IsRetain = False, TopicName = ''x'',
                    pub_PacketID = 7, Payload = [112]\<rparr>)]
   \<and> wire
     (handleSend (\<lambda>pkt. None) [LogicSend, LogicSend]
        (logic
           [Recv (Publish \<lparr>IsDup = False, pub_Qos = 2, IsRetain = False, TopicName = ''x'',
                           pub_PacketID = 7, Payload = [112]\<rparr>),
            Recv (PubRel 7)]
           (initConn
              [7 \<mapsto> Publish \<lparr>IsDup = False, pub_Qos = 2, IsRetain = False,
                              TopicName = ''y'', pub_PacketID = 7, Payload = []\<rparr>])))
     = [PubRecv 7, PubComp 7]
   \<and> persistLog
     (handleSend (\<lambda>pkt. None) [LogicSend, LogicSend]
        (logic
           [Recv (Publish \<lparr>IsDup = False, pub_Qos = 2, IsRetain = False, TopicName = ''x'',
                           pub_PacketID = 7, Payload = [112]\<rparr>),
            Recv (PubRel 7)]
           (initConn
              [7 \<mapsto> Publish \<lparr>IsDup = False, pub_Qos = 2, IsRetain = False,
                              TopicName = ''y'', pub_PacketID = 7, Payload = []\<rparr>])))
     = [Store (recvKey 7)
          (Publish \<lparr>IsDup = False, pub_Qos = 2, IsRetain = False, TopicName = ''x'',
                    pub_PacketID = 7, Payload = [112]\<rparr>),
        Store (recvKey 7) (PubRel 7),
        Delete (sendKey 7)]"
  by (simp add: engine_defs initConn_def)

text \<open>
  C4. The claim: for an outbound PUBLISH with QoS 2 the exchange PUBLISH, PUBREC, PUBREL,
  PUBCOMP happens once, the engine sends exactly one PUBREL and none after PUBCOMP, and one
  publish result is reported, on PUBCOMP. The engine breaks it: with a PUBLISH with QoS 2 in
  flight under 5, PUBREC 5 and then PUBCOMP 5 come in; the engine queues PUBREL 5 on the
  PUBREC and a second PUBREL 5 on the PUBCOMP. The rest is as claimed: one publish result,
  the identifier freed, \<open>sendKey 5\<close> deleted.
\<close>

theorem pubcomp_resends_pubrel:
  "logic [Recv (PubRecv 5), Recv (PubComp 5)]
     (initConn [5 \<mapsto> Publish \<lparr>IsDup = False, pub_Qos = 2, IsRetain = False,
                              TopicName = ''t'', pub_PacketID = 5, Payload = [1]\<rparr>])
   = (initConn Map.empty)
       \<lparr>logicSendC := [PubRel 5, PubRel 5],
        msgCh := [PubMsg ''t'' None, PersistMsg (PubComp 5) (Delete (sendKey 5))],
        persistLog := [Delete (sendKey 5)]\<rparr>"
  by (simp add: engine_defs initConn_def)

section \<open>Properties of the keepalive task\<close>

lemma bitLength_0: "bitLength 0 = 0"
  by (simp add: bitLength.simps)

lemma bitLength_pos: "0 < n \<Longrightarrow> bitLength n = Suc (bitLength (n div 2))"
  by (simp add: bitLength.simps [of n])

lemmas float64_eval =
  bitLength_0 bitLength_pos roundFloat64_def float64_of_int64_def timeoutOf_def Let_def

text \<open>
  The rounding of the product: for a keepalive of 120 s and the factor 1.2 the exact
  product of the two doubles is a little below 144000000000 and the double nearest to it is
  144000000000.
\<close>

lemma timeoutOf_rounds:
  "timeoutOf 120000000000 (Finite False 5404319552844595 (- 52)) = Some 144000000000"
  by (simp add: float64_eval)

text \<open>The wrap-around of the period: for a keepalive of 4000000000 s the ticker panics.\<close>

lemma tickPeriod_wraps:
  "tickPeriod 4000000000000000000 = - 1611686018427387904
   \<and> keepalive 4000000000000000000 (Finite False 1 0) resp = NewTickerPanics"
  by (simp add: keepalive_def tickPeriod_def)

text \<open>
  Every run ends with \<open>exit\<close>, at the last PINGREQ or, when that is later, the timeout
  after the last reset of the timer, or at the first deadline when the timer was never
  reset.
\<close>

lemma keepalive_loop_exit:
  "pingTimes (keepalive_loop P T now lastTick deadline resp) \<noteq> []
   \<and> last (keepalive_loop P T now lastTick deadline resp) =
       (max (last (pingTimes (keepalive_loop P T now lastTick deadline resp)))
            (last (deadline #
               map (\<lambda>t. t + max 0 T)
                 (resetTimes (keepalive_loop P T now lastTick deadline resp)))),
        Exit)"
proof (induction resp arbitrary: now lastTick deadline)
  case Nil
  show ?case by (simp add: pingTimes_def resetTimes_def Let_def)
next
  case (Cons r resp)
  define tick where "tick = nextTick P now lastTick"
  show ?case
  proof (cases "max tick r < max tick deadline")
    case True
    define rest where "rest = keepalive_loop P T (max tick r) tick (max tick r + max 0 T) resp"
    from True have run: "keepalive_loop P T now lastTick deadline (r # resp)
                           = (tick, SendPingReq) # (max tick r, TimerReset) # rest"
      by (simp add: tick_def rest_def Let_def)
    from Cons.IH [of "max tick r" tick "max tick r + max 0 T"]
    have ih: "pingTimes rest \<noteq> []"
      "last rest = (max (last (pingTimes rest))
                      (last ((max tick r + max 0 T) #
                         map (\<lambda>t. t + max 0 T) (resetTimes rest))), Exit)"
      by (simp_all add: rest_def)
    from ih(1) have "rest \<noteq> []" by (auto simp: pingTimes_def)
    with ih show ?thesis
      unfolding run by (simp add: pingTimes_def resetTimes_def)
  next
    case False
    then have "keepalive_loop P T now lastTick deadline (r # resp)
                 = [(tick, SendPingReq), (max tick deadline, Exit)]"
      by (simp add: tick_def Let_def)
    then show ?thesis by (simp add: pingTimes_def resetTimes_def)
  qed
qed

text \<open>
  C5, as the claim states it, fails. The claim: with keepalive \<open>k\<close> and factor \<open>f\<close> the task
  sends PINGREQ at \<open>k \<times> 0.75\<close> and, when no PINGRESP comes, closes the connection
  \<open>k \<times> f\<close> after the PINGREQ, at 3.5 s for \<open>k\<close> = 2 s and \<open>f\<close> = 1.0. For these values
  the task sends PINGREQ at 1.5 s and calls \<open>exit\<close> at 2.0 s: the timeout timer runs
  from the start of the task, not from the PINGREQ.
\<close>

theorem keepalive_exit_before_claimed_time:
  "keepalive 2000000000 (Finite False 1 0) []
     = Run [(1500000000, SendPingReq), (2000000000, Exit)]
   \<and> keepalive 2000000000 (Finite False 1 0) []
     \<noteq> Run [(1500000000, SendPingReq), (3500000000, Exit)]"
  by (simp add: keepalive_def tickPeriod_def nextTick_def float64_eval)

text \<open>
  C5, amended. Let the ticker period \<open>k * 3 / 4\<close> be positive and let \<open>T\<close> be the timeout
  computed from the keepalive \<open>k\<close> and the factor \<open>f\<close>. The task sends PINGREQ at
  \<open>k * 3 / 4\<close> after it starts. The timer is set when the task starts, not when the
  PINGREQ is sent: when no PINGRESP comes the task closes the connection \<open>T\<close> after its
  start, or with the PINGREQ when that is later (for \<open>k\<close> = 2 s and \<open>f\<close> = 1.0: PINGREQ
  at 1.5 s, close at 2.0 s). At every turn of the loop, a PINGRESP that is there before
  the timer fires resets the timer to \<open>T\<close> after the moment it is received, and the loop
  goes on with the PINGRESP that follow. Whatever PINGRESP come, the task closes the
  connection with its last PINGREQ or, when that is later, \<open>T\<close> after the last reset of
  the timer (after the start when there was none).
\<close>

theorem keepalive_timeout_from_start:
  assumes "0 < tickPeriod k" and "timeoutOf k f = Some T"
  shows "keepalive k f [] =
           Run [(tickPeriod k, SendPingReq), (max (tickPeriod k) T, Exit)]
         \<and> (max (nextTick (tickPeriod k) now lastTick) r
               < max (nextTick (tickPeriod k) now lastTick) deadline \<longrightarrow>
              keepalive_loop (tickPeriod k) T now lastTick deadline (r # resp) =
                (nextTick (tickPeriod k) now lastTick, SendPingReq) #
                (max (nextTick (tickPeriod k) now lastTick) r, TimerReset) #
                keepalive_loop (tickPeriod k) T
                  (max (nextTick (tickPeriod k) now lastTick) r)
                  (nextTick (tickPeriod k) now lastTick)
                  (max (nextTick (tickPeriod k) now lastTick) r + max 0 T) resp)
         \<and> (\<exists>run. keepalive k f resps = Run run
               \<and> last run =
                   (max (last (pingTimes run))
                        (last (max 0 T # map (\<lambda>t. t + max 0 T) (resetTimes run))),
                    Exit))"
proof (intro conjI impI)
  have "nextTick (tickPeriod k) 0 0 = tickPeriod k"
    using assms(1) by (simp add: nextTick_def)
  moreover have "max (tickPeriod k) (max 0 T) = max (tickPeriod k) T"
    using assms(1) by simp
  ultimately show "keepalive k f [] =
      Run [(tickPeriod k, SendPingReq), (max (tickPeriod k) T, Exit)]"
    using assms by (simp add: keepalive_def Let_def)
next
  assume "max (nextTick (tickPeriod k) now lastTick) r
            < max (nextTick (tickPeriod k) now lastTick) deadline"
  then show "keepalive_loop (tickPeriod k) T now lastTick deadline (r # resp) =
                (nextTick (tickPeriod k) now lastTick, SendPingReq) #
                (max (nextTick (tickPeriod k) now lastTick) r, TimerReset) #
                keepalive_loop (tickPeriod k) T
                  (max (nextTick (tickPeriod k) now lastTick) r)
                  (nextTick (tickPeriod k) now lastTick)
                  (max (nextTick (tickPeriod k) now lastTick) r + max 0 T) resp"
    by (simp add: Let_def)
next
  from assms have "keepalive k f resps =
      Run (keepalive_loop (tickPeriod k) T 0 0 (max 0 T) resps)"
    by (simp add: keepalive_def)
  with keepalive_loop_exit [of "tickPeriod k" T 0 0 "max 0 T" resps]
  show "\<exists>run. keepalive k f resps = Run run
          \<and> last run =
              (max (last (pingTimes run))
                   (last (max 0 T # map (\<lambda>t. t + max 0 T) (resetTimes run))),
               Exit)"
    by simp
qed

theorem keepalive_timeout_from_start_witness:
  "0 < tickPeriod 2000000000
   \<and> timeoutOf 2000000000 (Finite False 1 0) = Some 2000000000
   \<and> keepalive 2000000000 (Finite False 1 0) []
       = Run [(1500000000, SendPingReq), (2000000000, Exit)]
   \<and> max (nextTick (tickPeriod 2000000000) 0 0) 1600000000
       < max (nextTick (tickPeriod 2000000000) 0 0) 2000000000
   \<and> keepalive_loop (tickPeriod 2000000000) 2000000000 0 0 2000000000
         [1600000000, 3100000000]
       = [(1500000000, SendPingReq), (1600000000, TimerReset),
          (3000000000, SendPingReq), (3100000000, TimerReset),
          (4500000000, SendPingReq), (5100000000, Exit)]"
proof -
  have hyps: "0 < tickPeriod 2000000000"
    "timeoutOf 2000000000 (Finite False 1 0) = Some 2000000000"
    by (simp_all add: tickPeriod_def float64_eval)
  have timely: "max (nextTick (tickPeriod 2000000000) 0 0) 1600000000
                  < max (nextTick (tickPeriod 2000000000) 0 0) 2000000000"
    by (simp add: tickPeriod_def nextTick_def)
  have rest: "keepalive_loop (tickPeriod 2000000000) 2000000000 1600000000 1500000000
                3600000000 [3100000000]
              = [(3000000000, SendPingReq), (3100000000, TimerReset),
                 (4500000000, SendPingReq), (5100000000, Exit)]"
    by (simp add: tickPeriod_def nextTick_def)
  from keepalive_timeout_from_start
         [OF hyps, of 0 0 1600000000 2000000000 "[3100000000]" "[]"]
       hyps timely rest
  show ?thesis by (simp add: tickPeriod_def nextTick_def)
qed

section \<open>Properties of the packet-identifier allocator\<close>

lemma of_nat_uint16_nonzero: "0 < j \<Longrightarrow> j \<le> 65535 \<Longrightarrow> (of_nat j :: uint16) \<noteq> 0"
proof
  assume j: "0 < j" "j \<le> 65535" and "(of_nat j :: uint16) = 0"
  then have "2 ^ 16 dvd j" by (simp add: word_of_nat_eq_0_iff)
  with j(1) have "2 ^ 16 \<le> j" by (rule_tac dvd_imp_le)
  with j(2) show False by simp
qed

lemma nonzero_uint16_index:
  assumes "(p :: uint16) \<noteq> 0"
  shows "1 \<le> unat p \<and> unat p \<le> 65535 \<and> of_nat (unat p) = p"
proof -
  from assms have "unat p \<noteq> 0" by (simp add: unat_eq_0)
  moreover have "unat p < 2 ^ 16" using unsigned_less [of p, where 'a = nat] by simp
  ultimately show ?thesis by simp
qed

lemma card_nonzero_uint16: "card (- {0 :: uint16}) = 65535"
  by (simp add: Compl_eq_Diff_UNIV card_word)

lemma firstFree_here:
  "i \<le> 65535 \<Longrightarrow> m (of_nat i) = None \<Longrightarrow> firstFree m i = Some (of_nat i)"
  by (simp add: firstFree.simps [of m i])

lemma firstFree_Some:
  "firstFree m i = Some p \<Longrightarrow> 0 < i \<Longrightarrow> p \<noteq> 0 \<and> m p = None"
proof (induction m i rule: firstFree.induct)
  case (1 m i)
  show ?case
  proof (cases "65535 < i")
    case True
    with "1.prems" show ?thesis by (simp add: firstFree.simps [of m i])
  next
    case False
    note le = this
    show ?thesis
    proof (cases "m (of_nat i) = None")
      case True
      with le "1.prems" have "p = of_nat i" by (simp add: firstFree.simps [of m i])
      with True le "1.prems" show ?thesis by (simp add: of_nat_uint16_nonzero)
    next
      case False
      with le "1.prems" have "firstFree m (i + 1) = Some p"
        by (simp add: firstFree.simps [of m i])
      with "1.IH" le False show ?thesis by simp
    qed
  qed
qed

lemma firstFree_finds:
  "i \<le> j \<Longrightarrow> j \<le> 65535 \<Longrightarrow> m (of_nat j) = None \<Longrightarrow> firstFree m i \<noteq> None"
proof (induction m i rule: firstFree.induct)
  case (1 m i)
  from "1.prems" have le: "\<not> 65535 < i" by simp
  show ?case
  proof (cases "m (of_nat i) = None")
    case True
    with le show ?thesis by (simp add: firstFree.simps [of m i])
  next
    case False
    with "1.prems" have "i \<noteq> j" by auto
    with "1.prems" have "i + 1 \<le> j" by simp
    from "1.IH" [OF le False this "1.prems"(2,3)] have "firstFree m (i + 1) \<noteq> None" .
    with le False show ?thesis by (simp add: firstFree.simps [of m i])
  qed
qed

lemma firstFree_exhausted:
  assumes "\<forall>p. p \<noteq> 0 \<longrightarrow> m p \<noteq> None" and "0 < i"
  shows "firstFree m i = None"
proof (rule ccontr)
  assume "firstFree m i \<noteq> None"
  then obtain p where "firstFree m i = Some p" by auto
  from firstFree_Some [OF this assms(2)] have p: "p \<noteq> 0" "m p = None" by simp_all
  from assms(1) p(1) have "m p \<noteq> None" by blast
  with p(2) show False by contradiction
qed

lemma firstFree_after_free:
  assumes "q \<noteq> 0"
  shows "firstFree (idGen_free m q) 1 \<noteq> None"
proof -
  from nonzero_uint16_index [OF assms]
  show ?thesis
    by (intro firstFree_finds [where j = "unat q"]) (simp_all add: idGen_free_def)
qed

text \<open>
  C8. In a table that binds nothing to 0, as the empty table does and as \<open>alloc\<close> and
  \<open>free\<close> keep it: an allocation that succeeds returns an identifier that is not 0 and was
  not bound, binds it, and binds nothing to 0; at most 65535 identifiers are bound; when all
  65535 are bound the allocation fails with \<open>NoFreePacketID\<close>, a value returned to the
  caller that touches no connection; after a free of a non-zero identifier the allocation
  succeeds, and from the full table it returns the identifier that was freed.
\<close>

theorem alloc_never_zero_never_bound:
  assumes "m 0 = None"
  shows "(alloc m x = Inr (pid, m') \<longrightarrow>
            pid \<noteq> 0 \<and> m pid = None \<and> m' = m(pid \<mapsto> x) \<and> m' 0 = None)
         \<and> idGen_free m q 0 = None
         \<and> card (dom m) \<le> 65535
         \<and> ((\<forall>p. p \<noteq> 0 \<longrightarrow> m p \<noteq> None) \<longrightarrow> alloc m x = Inl NoFreePacketID)
         \<and> (q \<noteq> 0 \<longrightarrow>
              (\<exists>r. alloc (idGen_free m q) x = Inr (r, (idGen_free m q)(r \<mapsto> x))))
         \<and> ((\<forall>p. p \<noteq> 0 \<longrightarrow> m p \<noteq> None) \<and> q \<noteq> 0 \<longrightarrow>
              alloc (idGen_free m q) x = Inr (q, m(q \<mapsto> x)))"
proof (intro conjI impI)
  assume "alloc m x = Inr (pid, m')"
  then have found: "firstFree m 1 = Some pid" and m': "m' = m(pid \<mapsto> x)"
    by (auto simp: alloc_def split: option.splits)
  from firstFree_Some [OF found] have pid: "pid \<noteq> 0 \<and> m pid = None" by simp
  then show "pid \<noteq> 0" and "m pid = None" by simp_all
  show "m' = m(pid \<mapsto> x)" by (rule m')
  from pid m' assms show "m' 0 = None" by simp
next
  from assms show "idGen_free m q 0 = None" by (simp add: idGen_free_def)
next
  have "dom m \<subseteq> - {0}" using assms by auto
  then have "card (dom m) \<le> card (- {0 :: uint16})" by (intro card_mono) simp_all
  then show "card (dom m) \<le> 65535" by (simp add: card_nonzero_uint16)
next
  assume "\<forall>p. p \<noteq> 0 \<longrightarrow> m p \<noteq> None"
  then have "firstFree m 1 = None" by (intro firstFree_exhausted) simp_all
  then show "alloc m x = Inl NoFreePacketID" by (simp add: alloc_def)
next
  assume "q \<noteq> 0"
  then have "firstFree (idGen_free m q) 1 \<noteq> None" by (rule firstFree_after_free)
  then show "\<exists>r. alloc (idGen_free m q) x = Inr (r, (idGen_free m q)(r \<mapsto> x))"
    by (auto simp: alloc_def)
next
  assume full: "(\<forall>p. p \<noteq> 0 \<longrightarrow> m p \<noteq> None) \<and> q \<noteq> 0"
  then have "firstFree (idGen_free m q) 1 \<noteq> None" by (intro firstFree_after_free) simp
  then obtain r where r: "firstFree (idGen_free m q) 1 = Some r" by auto
  from firstFree_Some [OF r] have "r \<noteq> 0 \<and> idGen_free m q r = None" by simp
  with full have "r = q" by (auto simp: idGen_free_def split: if_splits)
  with r show "alloc (idGen_free m q) x = Inr (q, m(q \<mapsto> x))"
    by (simp add: alloc_def idGen_free_def)
qed

theorem alloc_never_zero_never_bound_witness:
  "alloc Map.empty PingReq = Inr (1, [1 \<mapsto> PingReq])
   \<and> (1 :: uint16) \<noteq> 0
   \<and> card (dom (Map.empty :: Packet idGenerator)) \<le> 65535
   \<and> alloc (\<lambda>p. if p = 0 then None else Some PingReq) PingReq = Inl NoFreePacketID
   \<and> (7 :: uint16) \<noteq> 0
   \<and> alloc (idGen_free (\<lambda>p. if p = 0 then None else Some PingReq) 7) PingReq
       = Inr (7, (\<lambda>p. if p = 0 then None else Some PingReq)(7 \<mapsto> PingReq))"
proof -
  have first: "alloc Map.empty PingReq = Inr (1, [1 \<mapsto> PingReq])"
    by (simp add: alloc_def firstFree_here [of 1, simplified])
  from alloc_never_zero_never_bound [of Map.empty PingReq 1 "[1 \<mapsto> PingReq]" 7] first
  have "(1 :: uint16) \<noteq> 0" by simp
  with first
    alloc_never_zero_never_bound
      [of "\<lambda>p. if p = 0 then None else Some PingReq" PingReq 1 Map.empty 7]
  show ?thesis by simp
qed

end
